theory Spec2Isabelle
  imports Main "HOL-Library.AList"
begin

section \<open>Data model\<close>

text \<open>
  The program (\<^verbatim>\<open>main.py\<close>) keeps named folders (class \<^verbatim>\<open>Option\<close>) of launchable
  items (class \<^verbatim>\<open>OptionApp\<close>) and mirrors them in a data directory: one
  sub-directory per folder, one shortcut file per program item and the text file
  \<^verbatim>\<open>weburls.txt\<close> for the web items.

  An item's \<^verbatim>\<open>path\<close> field holds a \<^verbatim>\<open>Path\<close> object for a shortcut and a \<^verbatim>\<open>str\<close> for
  a URL. \<open>PathObj folder file\<close> stands for
  \<^verbatim>\<open>Path.joinpath(data_folder_path, folder, file)\<close>. Strings are lists of
  \<^typ>\<open>char\<close>, so only code points below 256 are represented. Record fields carry
  the prefixes \<open>app_\<close> and \<open>opt_\<close> because both classes have a field \<^verbatim>\<open>selected\<close>.
\<close>

datatype OptionAppType = lnk | web

datatype path_value = PathObj string string | StrObj string

record OptionApp =
  app_path :: path_value
  app_type :: OptionAppType
  app_selected :: bool

record Option_obj =
  opt_name :: string
  opt_apps :: "OptionApp list"
  opt_selected :: bool

text \<open>
  What the program does to the outside world besides the data directory: the
  calls of \<^verbatim>\<open>os.startfile\<close> and \<^verbatim>\<open>webbrowser.open\<close>, in the order they are made.
  What the operating system does with a call, and whether it fails, is outside the
  model: every call is taken to return.
\<close>

datatype os_call = Startfile path_value | Open_web path_value

datatype platform = Posix | Windows

datatype error = AttributeError | FileNotFoundError | ValueError | com_error

type_synonym directory = "(string \<times> string) list"

text \<open>
  \<open>Option\<close> objects are shared between the class-level registry
  \<^verbatim>\<open>Option.__all__\<close>, the list \<^verbatim>\<open>MainPage.options\<close> and the pages of
  \<^verbatim>\<open>AutoOpenerApp.option_pages\<close>, and they are mutated in place. The model keeps
  them in a store \<open>objs\<close>; an object's address is its index, a new object is
  appended, and the three lists hold addresses. The data directory is an
  association list from the names of its sub-directories to their contents, each an
  association list from file names to file contents; the order of an association list
  is the order in which \<^verbatim>\<open>os.listdir\<close> enumerates. A folder's name is the key of its
  directory as it stands: names that a file system would resolve to another entry
  (a name with a path separator, a name differing only in case) are outside the
  model, and so are entries of the data directory that are not directories, on which
  the program cannot start.
\<close>

record state =
  objs :: "Option_obj list"
  all_options :: "nat list"
  options :: "nat list"
  option_pages :: "nat list"
  disk :: "(string \<times> directory) list"
  calls :: "os_call list"
  os_platform :: platform

text \<open>
  A call either returns a value or raises; Python does not roll back, so both
  outcomes carry the state reached.
\<close>

datatype 'a result = Returned 'a state | Raised error state

section \<open>Strings and text files\<close>

text \<open>\<^verbatim>\<open>str.strip()\<close> removes the characters for which \<^verbatim>\<open>str.isspace\<close> holds.\<close>

definition isspace :: "char \<Rightarrow> bool" where
  "isspace c = (of_char c \<in> set [9, 10, 11, 12, 13, 28, 29, 30, 31, 32, 133, 160 :: nat])"

definition strip :: "string \<Rightarrow> string" where
  "strip s = rev (dropWhile isspace (rev (dropWhile isspace s)))"

definition startswith :: "string \<Rightarrow> string list \<Rightarrow> bool" where
  "startswith s ps = list_ex (\<lambda>p. take (length p) s = p) ps"

definition LF :: char where
  "LF = CHR 0x0A"

definition CR :: char where
  "CR = CHR 0x0D"

definition os_linesep :: "platform \<Rightarrow> string" where
  "os_linesep pf = (case pf of Posix \<Rightarrow> [LF] | Windows \<Rightarrow> [CR, LF])"

text \<open>
  Files are opened in text mode with the default \<^verbatim>\<open>newline=None\<close>: on writing every
  \<^verbatim>\<open>'\n'\<close> becomes \<^verbatim>\<open>os.linesep\<close>; on reading \<^verbatim>\<open>'\r\n'\<close> and a lone \<^verbatim>\<open>'\r'\<close> become
  \<^verbatim>\<open>'\n'\<close>. The character encoding of the file is not modelled.
\<close>

definition text_write :: "platform \<Rightarrow> string \<Rightarrow> string" where
  "text_write pf s = concat (map (\<lambda>c. if c = LF then os_linesep pf else [c]) s)"

fun universal_newlines :: "string \<Rightarrow> string" where
  "universal_newlines [] = []"
| "universal_newlines [c] = (if c = CR then [LF] else [c])"
| "universal_newlines (c # d # cs) =
     (if c = CR then (if d = LF then LF # universal_newlines cs
                      else LF # universal_newlines (d # cs))
      else c # universal_newlines (d # cs))"

text \<open>\<^verbatim>\<open>file.readlines()\<close>: the lines of the text, each with its \<^verbatim>\<open>'\n'\<close> kept.\<close>

fun split_lines :: "string \<Rightarrow> string \<Rightarrow> string list" where
  "split_lines cur [] = (if cur = [] then [] else [cur])"
| "split_lines cur (c # cs) =
     (if c = LF then (cur @ [c]) # split_lines [] cs else split_lines (cur @ [c]) cs)"

definition readlines :: "string \<Rightarrow> string list" where
  "readlines content = split_lines [] (universal_newlines content)"

section \<open>The data directory\<close>

definition isdir :: "(string \<times> directory) list \<Rightarrow> string \<Rightarrow> bool" where
  "isdir d option_name = (map_of d option_name \<noteq> None)"

text \<open>\<^verbatim>\<open>os.mkdir\<close>, called only where \<open>isdir\<close> is false.\<close>

definition mkdir :: "(string \<times> directory) list \<Rightarrow> string \<Rightarrow> (string \<times> directory) list" where
  "mkdir d option_name = d @ [(option_name, [])]"

text \<open>
  \<^verbatim>\<open>open(path, 'r')\<close> followed by reading: \<open>None\<close> is \<^verbatim>\<open>FileNotFoundError\<close>.
\<close>

definition read_file :: "(string \<times> directory) list \<Rightarrow> string \<Rightarrow> string \<Rightarrow> string option" where
  "read_file d option_name file_name =
     (case map_of d option_name of
        None \<Rightarrow> None
      | Some dir \<Rightarrow> map_of dir file_name)"

text \<open>
  \<^verbatim>\<open>open(path, 'w')\<close> (and \<^verbatim>\<open>'x'\<close> where the file is known to be new) followed by
  writing \<open>content\<close>: the file is created or replaced.
\<close>

definition write_file ::
  "(string \<times> directory) list \<Rightarrow> string \<Rightarrow> string \<Rightarrow> string \<Rightarrow> (string \<times> directory) list option" where
  "write_file d option_name file_name content =
     (case map_of d option_name of
        None \<Rightarrow> None
      | Some dir \<Rightarrow> Some (AList.update option_name (AList.update file_name content dir) d))"

text \<open>\<^verbatim>\<open>open(path, 'a')\<close> followed by writing \<open>content\<close>: a missing file is created.\<close>

definition append_file ::
  "(string \<times> directory) list \<Rightarrow> string \<Rightarrow> string \<Rightarrow> string \<Rightarrow> (string \<times> directory) list option" where
  "append_file d option_name file_name content =
     (case map_of d option_name of
        None \<Rightarrow> None
      | Some dir \<Rightarrow>
          Some (AList.update option_name
                  (AList.update file_name
                     ((case map_of dir file_name of None \<Rightarrow> [] | Some old \<Rightarrow> old) @ content) dir) d))"

text \<open>\<^verbatim>\<open>os.remove\<close> of a path; a \<^verbatim>\<open>str\<close> is never passed to it.\<close>

fun os_remove :: "(string \<times> directory) list \<Rightarrow> path_value \<Rightarrow> (string \<times> directory) list option" where
  "os_remove d (PathObj option_name file_name) =
     (case map_of d option_name of
        None \<Rightarrow> None
      | Some dir \<Rightarrow>
          (if map_of dir file_name = None then None
           else Some (AList.update option_name (AList.delete file_name dir) d)))"
| "os_remove d (StrObj s) = None"

text \<open>\<^verbatim>\<open>shutil.rmtree\<close> of a folder's directory.\<close>

definition delete_directory ::
  "(string \<times> directory) list \<Rightarrow> string \<Rightarrow> (string \<times> directory) list option" where
  "delete_directory d option_name =
     (if isdir d option_name then Some (AList.delete option_name d) else None)"

section \<open>Class OptionApp\<close>

definition OptionApp_init :: "path_value \<Rightarrow> OptionAppType \<Rightarrow> OptionApp" where
  "OptionApp_init p t = \<lparr>app_path = p, app_type = t, app_selected = False\<rparr>"

definition run :: "OptionApp \<Rightarrow> state \<Rightarrow> state" where
  "run app st =
     (if app_type app = lnk then st\<lparr>calls := calls st @ [Startfile (app_path app)]\<rparr>
      else st\<lparr>calls := calls st @ [Open_web (app_path app)]\<rparr>)"

text \<open>The call that \<open>run\<close> makes for an item.\<close>

definition launch_call :: "OptionApp \<Rightarrow> os_call" where
  "launch_call app =
     (if app_type app = lnk then Startfile (app_path app) else Open_web (app_path app))"

definition select_app :: "OptionApp \<Rightarrow> OptionApp" where
  "select_app app =
     (if app_selected app then app\<lparr>app_selected := False\<rparr> else app\<lparr>app_selected := True\<rparr>)"

section \<open>Class Option\<close>

text \<open>
  The constructor registers the new object in \<^verbatim>\<open>__all__\<close> and returns it
  unselected.
\<close>

definition Option_init :: "state \<Rightarrow> string \<Rightarrow> OptionApp list \<Rightarrow> nat \<times> state" where
  "Option_init st name apps =
     (let new = length (objs st) in
      (new, st\<lparr>objs := objs st @ [\<lparr>opt_name = name, opt_apps = apps, opt_selected = False\<rparr>],
               all_options := all_options st @ [new]\<rparr>))"

definition add_app :: "state \<Rightarrow> nat \<Rightarrow> OptionApp \<Rightarrow> state" where
  "add_app st self app =
     st\<lparr>objs := (objs st)[self := (objs st ! self)\<lparr>opt_apps := opt_apps (objs st ! self) @ [app]\<rparr>]\<rparr>"

fun run_all_loop :: "OptionApp list \<Rightarrow> state \<Rightarrow> state" where
  "run_all_loop [] st = st"
| "run_all_loop (app # apps) st = run_all_loop apps (run app st)"

definition run_all :: "state \<Rightarrow> nat \<Rightarrow> state" where
  "run_all st self = run_all_loop (opt_apps (objs st ! self)) st"

fun run_selected_loop :: "OptionApp list \<Rightarrow> state \<Rightarrow> state" where
  "run_selected_loop [] st = st"
| "run_selected_loop (app # apps) st =
     (if app_selected app then run_selected_loop apps (run app st)
      else run_selected_loop apps st)"

definition run_selected :: "state \<Rightarrow> nat \<Rightarrow> state" where
  "run_selected st self = run_selected_loop (opt_apps (objs st ! self)) st"

definition select :: "state \<Rightarrow> nat \<Rightarrow> state" where
  "select st self = st\<lparr>objs := (objs st)[self := (objs st ! self)\<lparr>opt_selected := True\<rparr>]\<rparr>"

definition deselect :: "state \<Rightarrow> nat \<Rightarrow> state" where
  "deselect st self = st\<lparr>objs := (objs st)[self := (objs st ! self)\<lparr>opt_selected := False\<rparr>]\<rparr>"

text \<open>
  \<^verbatim>\<open>get_selected\<close> returns the first selected object of the registry, or \<^verbatim>\<open>None\<close>.
\<close>

definition get_selected :: "state \<Rightarrow> nat option" where
  "get_selected st = find (\<lambda>option. opt_selected (objs st ! option)) (all_options st)"

text \<open>
  In \<^verbatim>\<open>on_click\<close> the call \<^verbatim>\<open>None.deselect()\<close> raises \<^verbatim>\<open>AttributeError\<close>, which is
  caught and ignored.
\<close>

definition on_click :: "state \<Rightarrow> nat \<Rightarrow> state" where
  "on_click st self =
     select (case get_selected st of None \<Rightarrow> st | Some s \<Rightarrow> deselect st s) self"

text \<open>
  \<^verbatim>\<open>list.remove(x)\<close> deletes the first element equal to \<open>x\<close> and raises
  \<^verbatim>\<open>ValueError\<close> when there is none; neither class defines \<^verbatim>\<open>__eq__\<close>, so equality of
  objects is identity, here equality of addresses.
\<close>

definition Option_delete :: "state \<Rightarrow> nat \<Rightarrow> unit result" where
  "Option_delete st self =
     (let st1 = deselect st self in
      if self \<in> set (all_options st1)
      then Returned () (st1\<lparr>all_options := remove1 self (all_options st1)\<rparr>)
      else Raised ValueError st1)"

definition get_apps_of :: "state \<Rightarrow> nat \<Rightarrow> OptionApp list" where
  "get_apps_of st self = opt_apps (objs st ! self)"

section \<open>Class MainPage\<close>

text \<open>\<^verbatim>\<open>AutoOpenerApp.add_option\<close>: a detail page is created for the folder.\<close>

definition master_add_option :: "state \<Rightarrow> nat \<Rightarrow> state" where
  "master_add_option st option = st\<lparr>option_pages := option_pages st @ [option]\<rparr>"

text \<open>
  \<^verbatim>\<open>MainPage.add_option\<close>: the memory is updated before the directory is looked at.
  The last argument is \<open>None\<close> when the caller passes no list of items.
\<close>

definition add_option :: "state \<Rightarrow> string \<Rightarrow> OptionApp list option \<Rightarrow> unit result" where
  "add_option st option_name option_apps =
     (let option_name = strip option_name in
      if option_name = [] then Returned () st
      else if list_ex (\<lambda>option. option_name = opt_name (objs st ! option)) (options st)
      then Returned () st
      else
        let option_apps = (case option_apps of None \<Rightarrow> [] | Some apps \<Rightarrow> apps);
            (new_option, st1) = Option_init st option_name option_apps;
            st2 = st1\<lparr>options := options st1 @ [new_option]\<rparr>;
            st3 = master_add_option st2 new_option
        in if \<not> isdir (disk st3) option_name
           then
             (let st4 = st3\<lparr>disk := mkdir (disk st3) option_name\<rparr> in
              case write_file (disk st4) option_name ''weburls.txt'' [] of
                None \<Rightarrow> Raised FileNotFoundError st4
              | Some d \<Rightarrow> Returned () (st4\<lparr>disk := d\<rparr>))
           else Returned () st3)"

definition add_new_option :: "state \<Rightarrow> string \<Rightarrow> unit result" where
  "add_new_option st entry_option_name = add_option st entry_option_name None"

definition get_selected_option :: "state \<Rightarrow> nat option" where
  "get_selected_option st = get_selected st"

definition del_option :: "state \<Rightarrow> nat \<Rightarrow> unit result" where
  "del_option st option =
     (if option \<in> set (options st)
      then Option_delete (st\<lparr>options := remove1 option (options st)\<rparr>) option
      else Raised ValueError st)"

definition del_selected_option :: "state \<Rightarrow> unit result" where
  "del_selected_option st =
     (case get_selected_option st of
        None \<Rightarrow> Returned () st
      | Some selected_option \<Rightarrow>
          (case delete_directory (disk st) (opt_name (objs st ! selected_option)) of
             None \<Rightarrow> Raised FileNotFoundError st
           | Some d \<Rightarrow> del_option (st\<lparr>disk := d\<rparr>) selected_option))"

text \<open>
  The loops of \<^verbatim>\<open>get_options\<close>, innermost first: the lines of \<^verbatim>\<open>weburls.txt\<close>, the
  files of one directory, the directories of the data directory. \<^verbatim>\<open>os.listdir\<close> of
  the data directory is taken once; each directory is listed when its turn comes.
\<close>

fun load_urls :: "string list \<Rightarrow> OptionApp list \<Rightarrow> OptionApp list" where
  "load_urls [] cur_apps = cur_apps"
| "load_urls (url # urls) cur_apps =
     (let url = strip url in
      if url = [] then load_urls urls cur_apps
      else load_urls urls (cur_apps @ [OptionApp_init (StrObj url) web]))"

fun load_dir :: "string \<Rightarrow> directory \<Rightarrow> OptionApp list \<Rightarrow> OptionApp list" where
  "load_dir option_name [] cur_apps = cur_apps"
| "load_dir option_name ((app_name, content) # files) cur_apps =
     (if app_name = ''weburls.txt''
      then load_dir option_name files (load_urls (readlines content) cur_apps)
      else load_dir option_name files
             (cur_apps @ [OptionApp_init (PathObj option_name app_name) lnk]))"

fun get_options_loop :: "string list \<Rightarrow> state \<Rightarrow> unit result" where
  "get_options_loop [] st = Returned () st"
| "get_options_loop (option_name # names) st =
     (case map_of (disk st) option_name of
        None \<Rightarrow> Raised FileNotFoundError st
      | Some dir \<Rightarrow>
          (case add_option st option_name (Some (load_dir option_name dir [])) of
             Raised e st' \<Rightarrow> Raised e st'
           | Returned u st' \<Rightarrow> get_options_loop names st'))"

definition get_options :: "state \<Rightarrow> nat list result" where
  "get_options st =
     (let st0 = st\<lparr>options := []\<rparr> in
      case get_options_loop (map fst (disk st0)) st0 of
        Raised e st' \<Rightarrow> Raised e st'
      | Returned u st' \<Rightarrow> Returned (options st') st')"

text \<open>
  The values \<^verbatim>\<open>==\<close> is applied to in \<^verbatim>\<open>get_option\<close>. A \<^verbatim>\<open>str\<close> and an \<^verbatim>\<open>Option\<close>
  object are never equal: \<^verbatim>\<open>str.__eq__\<close> answers \<^verbatim>\<open>NotImplemented\<close> and the default
  comparison of objects is identity.
\<close>

datatype py_value = Str_val string | Option_ref nat | None_val

fun py_eq :: "py_value \<Rightarrow> py_value \<Rightarrow> bool" where
  "py_eq (Str_val a) (Str_val b) = (a = b)"
| "py_eq (Option_ref a) (Option_ref b) = (a = b)"
| "py_eq None_val None_val = True"
| "py_eq a b = False"

text \<open>
  In \<^verbatim>\<open>get_option\<close> the loop variable has the name of the parameter, so the
  comparison is between a folder's name and the folder itself.
\<close>

definition get_option :: "state \<Rightarrow> py_value \<Rightarrow> nat option result" where
  "get_option st option =
     (case get_options st of
        Raised e st' \<Rightarrow> Raised e st'
      | Returned opts st' \<Rightarrow>
          Returned (find (\<lambda>option. py_eq (Str_val (opt_name (objs st' ! option)))
                                       (Option_ref option)) opts) st')"

text \<open>
  \<^verbatim>\<open>add_site\<close> calls the method \<^verbatim>\<open>add_site\<close> of what \<^verbatim>\<open>get_option\<close> returns; neither
  \<^verbatim>\<open>None\<close> nor class \<^verbatim>\<open>Option\<close> has one.
\<close>

definition add_site :: "state \<Rightarrow> py_value \<Rightarrow> string \<Rightarrow> unit result" where
  "add_site st option site_url =
     (case get_option st option of
        Raised e st' \<Rightarrow> Raised e st'
      | Returned None st' \<Rightarrow> Raised AttributeError st'
      | Returned (Some found) st' \<Rightarrow> Raised AttributeError st')"

definition get_apps :: "state \<Rightarrow> py_value \<Rightarrow> OptionApp list result" where
  "get_apps st option =
     (case get_option st option of
        Raised e st' \<Rightarrow> Raised e st'
      | Returned None st' \<Rightarrow> Raised AttributeError st'
      | Returned (Some found) st' \<Rightarrow> Returned (get_apps_of st' found) st')"

definition run_option :: "state \<Rightarrow> nat \<Rightarrow> state" where
  "run_option st option = run_all st option"

definition run_selected_option :: "state \<Rightarrow> state" where
  "run_selected_option st =
     (case get_selected_option st of
        None \<Rightarrow> st
      | Some selected_option \<Rightarrow> run_option st selected_option)"

section \<open>Class OptionPage\<close>

text \<open>
  \<^verbatim>\<open>add_exe\<close>: the file dialog returns nothing or a file, given here by the stem of
  its path and the path. \<^verbatim>\<open>create_lnk\<close> has the shell save a shortcut
  \<^verbatim>\<open>stem.lnk\<close> in the folder's directory, which fails if the directory is missing.
\<close>

definition create_lnk ::
  "(string \<times> directory) list \<Rightarrow> string \<times> string \<Rightarrow> string \<Rightarrow>
   (path_value \<times> (string \<times> directory) list) option" where
  "create_lnk d exe_path save_path =
     (case write_file d save_path (fst exe_path @ ''.lnk'') (snd exe_path) of
        None \<Rightarrow> None
      | Some d' \<Rightarrow> Some (PathObj save_path (fst exe_path @ ''.lnk''), d'))"

definition add_exe :: "state \<Rightarrow> nat \<Rightarrow> (string \<times> string) option \<Rightarrow> unit result" where
  "add_exe st option file =
     (case file of
        None \<Rightarrow> Returned () st
      | Some file_path \<Rightarrow>
          (case create_lnk (disk st) file_path (opt_name (objs st ! option)) of
             None \<Rightarrow> Raised com_error st
           | Some (new_app_path, d) \<Rightarrow>
               Returned () (add_app (st\<lparr>disk := d\<rparr>) option (OptionApp_init new_app_path lnk))))"

text \<open>
  \<^verbatim>\<open>add_web\<close>: the argument \<open>entry_web_url\<close> is the text of the entry field.
\<close>

definition add_web :: "state \<Rightarrow> nat \<Rightarrow> string \<Rightarrow> unit result" where
  "add_web st option entry_web_url =
     (let url = strip entry_web_url in
      if url = [] then Returned () st
      else
        let url = (if \<not> startswith url [''http://'', ''https://''] then ''https://'' @ url
                   else url)
        in case append_file (disk st) (opt_name (objs st ! option)) ''weburls.txt''
                  (text_write (os_platform st) (url @ os_linesep (os_platform st))) of
             None \<Rightarrow> Raised FileNotFoundError st
           | Some d \<Rightarrow>
               Returned () (add_app (st\<lparr>disk := d\<rparr>) option (OptionApp_init (StrObj url) web)))"

text \<open>
  The first loop of \<^verbatim>\<open>remove_selected\<close> iterates over the list it removes from. A
  Python list iterator keeps an index \<open>i\<close>: each round it stops if \<open>i\<close> is not below
  the current length, and otherwise takes the element at \<open>i\<close> and increments \<open>i\<close>.
  The element is an object that occurs once in the list, so
  \<^verbatim>\<open>self.option.apps.remove(app)\<close> deletes position \<open>i\<close>. The loop returns the
  exception raised by \<^verbatim>\<open>os.remove\<close>, if any, with the list of items, the collected
  URLs and the data directory as they are at that time.
\<close>

definition remove_at :: "nat \<Rightarrow> 'a list \<Rightarrow> 'a list" where
  "remove_at i xs = take i xs @ drop (Suc i) xs"

function remove_loop ::
  "nat \<Rightarrow> OptionApp list \<Rightarrow> path_value list \<Rightarrow> (string \<times> directory) list \<Rightarrow>
   error option \<times> OptionApp list \<times> path_value list \<times> (string \<times> directory) list" where
  "remove_loop i apps urls_to_remove d =
     (if length apps \<le> i then (None, apps, urls_to_remove, d)
      else
        let app = apps ! i in
        if \<not> app_selected app then remove_loop (Suc i) apps urls_to_remove d
        else if app_type app = lnk then
          (case os_remove d (app_path app) of
             None \<Rightarrow> (Some FileNotFoundError, apps, urls_to_remove, d)
           | Some d' \<Rightarrow> remove_loop (Suc i) (remove_at i apps) urls_to_remove d')
        else remove_loop (Suc i) (remove_at i apps) (urls_to_remove @ [app_path app]) d)"
  by pat_completeness auto
termination
  by (relation "measure (\<lambda>(i, apps, urls_to_remove, d). length apps - i)")
     (auto simp: remove_at_def)

declare remove_loop.simps [simp del]

text \<open>The second loop: the lines written back to \<^verbatim>\<open>weburls.txt\<close>.\<close>

fun write_remaining :: "platform \<Rightarrow> string list \<Rightarrow> path_value list \<Rightarrow> string" where
  "write_remaining pf [] urls_to_remove = []"
| "write_remaining pf (url # urls) urls_to_remove =
     (let url = strip url in
      if url = [] then write_remaining pf urls urls_to_remove
      else if StrObj url \<notin> set urls_to_remove
      then text_write pf (url @ os_linesep pf) @ write_remaining pf urls urls_to_remove
      else write_remaining pf urls urls_to_remove)"

definition remove_selected :: "state \<Rightarrow> nat \<Rightarrow> unit result" where
  "remove_selected st option =
     (case remove_loop 0 (opt_apps (objs st ! option)) [] (disk st) of
        (err, apps, urls_to_remove, d) \<Rightarrow>
          (let st1 = st\<lparr>objs := (objs st)[option := (objs st ! option)\<lparr>opt_apps := apps\<rparr>],
                        disk := d\<rparr>;
               name = opt_name (objs st ! option)
           in case err of
                Some e \<Rightarrow> Raised e st1
              | None \<Rightarrow>
                  (case read_file (disk st1) name ''weburls.txt'' of
                     None \<Rightarrow> Raised FileNotFoundError st1
                   | Some content \<Rightarrow>
                       (case write_file (disk st1) name ''weburls.txt''
                               (write_remaining (os_platform st1) (readlines content)
                                  urls_to_remove) of
                          None \<Rightarrow> Raised FileNotFoundError st1
                        | Some d' \<Rightarrow> Returned () (st1\<lparr>disk := d'\<rparr>)))))"

definition page_run_selected :: "state \<Rightarrow> nat \<Rightarrow> state" where
  "page_run_selected st option = run_selected st option"

text \<open>A click on the label of item \<open>i\<close> of a folder calls \<^verbatim>\<open>select_app\<close> on it.\<close>

definition click_app :: "state \<Rightarrow> nat \<Rightarrow> nat \<Rightarrow> state" where
  "click_app st option i =
     st\<lparr>objs := (objs st)[option := (objs st ! option)
           \<lparr>opt_apps := (opt_apps (objs st ! option))
                          [i := select_app (opt_apps (objs st ! option) ! i)]\<rparr>]\<rparr>"

section \<open>Class AutoOpenerApp\<close>

text \<open>
  At start the registry and the list of pages are empty, the data directory exists
  (it is created if missing) and the overview page loads it with \<^verbatim>\<open>get_options\<close>.
\<close>

definition init_state :: "(string \<times> directory) list \<Rightarrow> platform \<Rightarrow> state" where
  "init_state d pf =
     \<lparr>objs = [], all_options = [], options = [], option_pages = [], disk = d, calls = [],
      os_platform = pf\<rparr>"

definition startup :: "(string \<times> directory) list \<Rightarrow> platform \<Rightarrow> nat list result" where
  "startup d pf = get_options (init_state d pf)"

section \<open>The events of the user interface\<close>

text \<open>
  Every state change is the callback of a widget. The event loop reports an
  exception raised by a callback and goes on, so the state after an event is the
  state the callback reached. A folder's label and its detail page can be used only
  while the folder is listed on the overview page, and an item's label only while
  the item is in its folder.
\<close>

datatype event =
    Create_folder string
  | Click_folder nat
  | Delete_folder
  | Run_folder
  | Click_app nat nat
  | Add_exe nat "(string \<times> string) option"
  | Add_web nat string
  | Remove_selected nat
  | Run_selected nat

fun state_of :: "'a result \<Rightarrow> state" where
  "state_of (Returned v st) = st"
| "state_of (Raised e st) = st"

fun handle :: "state \<Rightarrow> event \<Rightarrow> state" where
  "handle st (Create_folder entry_option_name) = state_of (add_new_option st entry_option_name)"
| "handle st (Click_folder option) = on_click st option"
| "handle st Delete_folder = state_of (del_selected_option st)"
| "handle st Run_folder = run_selected_option st"
| "handle st (Click_app option i) = click_app st option i"
| "handle st (Add_exe option file) = state_of (add_exe st option file)"
| "handle st (Add_web option entry_web_url) = state_of (add_web st option entry_web_url)"
| "handle st (Remove_selected option) = state_of (remove_selected st option)"
| "handle st (Run_selected option) = page_run_selected st option"

fun enabled :: "state \<Rightarrow> event \<Rightarrow> bool" where
  "enabled st (Click_folder option) = (option \<in> set (options st))"
| "enabled st (Click_app option i) =
     (option \<in> set (options st) \<and> i < length (opt_apps (objs st ! option)))"
| "enabled st (Add_exe option file) = (option \<in> set (options st))"
| "enabled st (Add_web option entry_web_url) = (option \<in> set (options st))"
| "enabled st (Remove_selected option) = (option \<in> set (options st))"
| "enabled st (Run_selected option) = (option \<in> set (options st))"
| "enabled st ev = True"

inductive reachable :: "state \<Rightarrow> bool" where
  start: "startup d pf = Returned opts st \<Longrightarrow> reachable st"
| step: "reachable st \<Longrightarrow> enabled st ev \<Longrightarrow> reachable (handle st ev)"

section \<open>State predicates\<close>

text \<open>The number of folder objects whose \<^verbatim>\<open>selected\<close> field is true is at most one.\<close>

definition at_most_one_selected :: "state \<Rightarrow> bool" where
  "at_most_one_selected st = (length (filter opt_selected (objs st)) \<le> 1)"

text \<open>
  The lists of folders hold addresses of existing objects, each once, the overview
  lists the registered folders, and a selected folder is registered.
\<close>

definition registry_ok :: "state \<Rightarrow> bool" where
  "registry_ok st =
     (list_all (\<lambda>option. option < length (objs st)) (all_options st) \<and>
      distinct (all_options st) \<and>
      options st = all_options st \<and>
      list_all (\<lambda>option. opt_selected (objs st ! option) \<longrightarrow> option \<in> set (all_options st))
        [0..<length (objs st)])"

definition sel_inv :: "state \<Rightarrow> bool" where
  "sel_inv st = (registry_ok st \<and> at_most_one_selected st)"

text \<open>The names of the folders on the overview, in order.\<close>

definition folder_names :: "state \<Rightarrow> string list" where
  "folder_names st = map (\<lambda>option. opt_name (objs st ! option)) (options st)"

text \<open>
  A data directory as the program itself leaves it: no two directories and no two
  files of a directory share a name, and the names of the directories are trimmed
  and not empty.
\<close>

definition clean_disk :: "(string \<times> directory) list \<Rightarrow> bool" where
  "clean_disk d =
     (distinct (map fst d) \<and>
      list_all (\<lambda>entry. strip (fst entry) = fst entry \<and> fst entry \<noteq> [] \<and>
                         distinct (map fst (snd entry))) d)"

text \<open>The folders in memory are the directories on disk.\<close>

definition in_sync :: "state \<Rightarrow> bool" where
  "in_sync st =
     (clean_disk (disk st) \<and> distinct (folder_names st) \<and>
      set (folder_names st) = set (map fst (disk st)))"

text \<open>
  What \<^verbatim>\<open>get_options\<close> makes of one directory, and the state in which the program
  starts on a data directory.
\<close>

definition loaded_object :: "string \<times> directory \<Rightarrow> Option_obj" where
  "loaded_object entry =
     \<lparr>opt_name = fst entry, opt_apps = load_dir (fst entry) (snd entry) [],
      opt_selected = False\<rparr>"

definition loaded_state :: "(string \<times> directory) list \<Rightarrow> platform \<Rightarrow> state" where
  "loaded_state d pf =
     \<lparr>objs = map loaded_object d, all_options = [0..<length d], options = [0..<length d],
      option_pages = [0..<length d], disk = d, calls = [], os_platform = pf\<rparr>"

text \<open>The states reached when the program was started on a clean data directory.\<close>

inductive clean_reachable :: "state \<Rightarrow> bool" where
  clean_start: "clean_disk d \<Longrightarrow> clean_reachable (loaded_state d pf)"
| clean_step: "clean_reachable st \<Longrightarrow> enabled st ev \<Longrightarrow> clean_reachable (handle st ev)"

section \<open>Web items and their file\<close>

text \<open>
  The item \<^verbatim>\<open>OptionApp(url, OptionAppType.web)\<close>, the web items of a list of items,
  and the URL that \<^verbatim>\<open>add_web\<close> stores for the trimmed text of the entry field.
\<close>

definition web_item :: "string \<Rightarrow> OptionApp" where
  "web_item url = OptionApp_init (StrObj url) web"


definition stored_url :: "string \<Rightarrow> string" where
  "stored_url url =
     (if startswith url [''http://'', ''https://''] then url else ''https://'' @ url)"





definition stripped :: "string \<Rightarrow> bool" where
  "stripped s = (s \<noteq> [] \<and> \<not> isspace (hd s) \<and> \<not> isspace (last s))"

section \<open>Example states\<close>

text \<open>A data directory with two empty folders, and the state the program loads from it.\<close>

definition two_dirs :: "(string \<times> directory) list" where
  "two_dirs = [(''games'', [(''weburls.txt'', [])]), (''work'', [(''weburls.txt'', [])])]"

definition loaded :: state where
  "loaded =
     \<lparr>objs = [\<lparr>opt_name = ''games'', opt_apps = [], opt_selected = False\<rparr>,
              \<lparr>opt_name = ''work'', opt_apps = [], opt_selected = False\<rparr>],
      all_options = [0, 1], options = [0, 1], option_pages = [0, 1], disk = two_dirs,
      calls = [], os_platform = Windows\<rparr>"


text \<open>
  A folder with three web items, the first two ticked, as the program writes it on
  Windows.
\<close>

definition ticked_pair :: state where
  "ticked_pair =
     \<lparr>objs = [\<lparr>opt_name = ''work'',
               opt_apps = [\<lparr>app_path = StrObj ''https://a.org'', app_type = web,
                            app_selected = True\<rparr>,
                           \<lparr>app_path = StrObj ''https://b.org'', app_type = web,
                            app_selected = True\<rparr>,
                           \<lparr>app_path = StrObj ''https://c.org'', app_type = web,
                            app_selected = False\<rparr>],
               opt_selected = False\<rparr>],
      all_options = [0], options = [0], option_pages = [0],
      disk = [(''work'', [(''weburls.txt'',
                 ''https://a.org'' @ [CR, CR, LF] @ ''https://b.org'' @ [CR, CR, LF] @
                 ''https://c.org'' @ [CR, CR, LF])])],
      calls = [], os_platform = Windows\<rparr>"

section \<open>Launching\<close>

lemma strip_examples:
  "strip ''games'' = ''games''" "strip ''work'' = ''work''"
  by (simp_all add: strip_def isspace_def)

lemma run_calls: "run app st = st\<lparr>calls := calls st @ [launch_call app]\<rparr>"
  by (simp add: run_def launch_call_def)

lemma run_selected_loop_eq:
  "run_selected_loop apps st =
     st\<lparr>calls := calls st @ map launch_call (filter app_selected apps)\<rparr>"
  by (induction apps arbitrary: st) (simp_all add: run_calls)

lemma run_all_loop_eq:
  "run_all_loop apps st = st\<lparr>calls := calls st @ map launch_call apps\<rparr>"
  by (induction apps arbitrary: st) (simp_all add: run_calls)






section \<open>Exclusive selection of folders\<close>

lemma count_le_1_iff:
  "(length (filter P xs) \<le> 1) =
     (\<forall>i<length xs. \<forall>j<length xs. P (xs ! i) \<longrightarrow> P (xs ! j) \<longrightarrow> i = j)"
proof (induction xs)
  case Nil
  then show ?case by simp
next
  case (Cons x xs)
  show ?case
  proof (cases "P x")
    case True
    have "(length (filter P (x # xs)) \<le> 1) = (\<forall>y\<in>set xs. \<not> P y)"
      using True by (simp add: filter_empty_conv)
    also have "\<dots> = (\<forall>i<length (x # xs). \<forall>j<length (x # xs).
        P ((x # xs) ! i) \<longrightarrow> P ((x # xs) ! j) \<longrightarrow> i = j)"
      using True by (auto simp: All_less_Suc2 all_set_conv_all_nth)
    finally show ?thesis .
  next
    case False
    then show ?thesis using Cons.IH
      by (simp add: All_less_Suc2)
  qed
qed

lemma at_most_one_iff:
  "at_most_one_selected st =
     (\<forall>i<length (objs st). \<forall>j<length (objs st).
        opt_selected (objs st ! i) \<longrightarrow> opt_selected (objs st ! j) \<longrightarrow> i = j)"
  unfolding at_most_one_selected_def by (rule count_le_1_iff)

lemma registry_ok_iff:
  "registry_ok st =
     ((\<forall>option\<in>set (all_options st). option < length (objs st)) \<and>
      distinct (all_options st) \<and>
      options st = all_options st \<and>
      (\<forall>option<length (objs st).
          opt_selected (objs st ! option) \<longrightarrow> option \<in> set (all_options st)))"
  by (auto simp: registry_ok_def list_all_iff)

lemmas sel_inv_iff = sel_inv_def registry_ok_iff at_most_one_iff

lemma find_SomeD: "find P xs = Some x \<Longrightarrow> P x \<and> x \<in> set xs"
  by (induction xs) (auto split: if_splits)

lemma get_selected_Some:
  assumes "sel_inv st" "a < length (objs st)" "opt_selected (objs st ! a)"
  shows "get_selected st = Some a"
proof -
  from assms have ain: "a \<in> set (all_options st)"
    by (simp add: sel_inv_def registry_ok_iff)
  then obtain x where x: "get_selected st = Some x"
    using assms(3) by (cases "get_selected st") (auto simp: get_selected_def find_None_iff)
  then have "opt_selected (objs st ! x)" "x \<in> set (all_options st)"
    by (auto simp: get_selected_def dest: find_SomeD)
  with assms have "x = a"
    by (auto simp: sel_inv_def registry_ok_iff at_most_one_iff)
  with x show ?thesis by simp
qed

lemma get_selected_None:
  assumes "sel_inv st" "get_selected st = None" "a < length (objs st)"
  shows "\<not> opt_selected (objs st ! a)"
  using assms by (auto simp: sel_inv_def registry_ok_iff get_selected_def find_None_iff)

lemma on_click_sel_inv:
  assumes "sel_inv st" "b \<in> set (options st)"
  shows "sel_inv (on_click st b)"
proof (cases "get_selected st")
  case None
  show ?thesis using assms get_selected_None[OF assms(1) None]
    by (simp add: on_click_def None select_def sel_inv_iff nth_list_update)
next
  case (Some a)
  have a: "opt_selected (objs st ! a)" "a \<in> set (all_options st)"
    using Some by (auto simp: get_selected_def dest: find_SomeD)
  show ?thesis using assms a
    apply (simp add: on_click_def Some select_def deselect_def sel_inv_iff nth_list_update)
    apply auto
    done
qed

text \<open>
  The invariant only reads the \<^verbatim>\<open>selected\<close> flags and the two lists of folders.
\<close>

lemma sel_inv_cong:
  assumes "map opt_selected (objs st') = map opt_selected (objs st)"
    "all_options st' = all_options st" "options st' = options st" "sel_inv st"
  shows "sel_inv st'"
proof -
  have len: "length (objs st') = length (objs st)"
    using assms(1) by (metis length_map)
  have nth: "\<And>i. i < length (objs st) \<Longrightarrow>
      opt_selected (objs st' ! i) = opt_selected (objs st ! i)"
    using assms(1) len by (metis nth_map)
  show ?thesis using assms(2-4) len nth by (simp add: sel_inv_iff)
qed

lemma map_sel_update_apps:
  "map opt_selected (xs[i := (xs ! i)\<lparr>opt_apps := a\<rparr>]) = map opt_selected xs"
  by (cases "i < length xs") (auto simp: list_eq_iff_nth_eq nth_list_update)

lemma add_app_sel_inv:
  assumes "objs st' = objs st" "all_options st' = all_options st" "options st' = options st"
    "sel_inv st"
  shows "sel_inv (add_app st' option app)"
  using assms by (auto intro!: sel_inv_cong[of _ st] simp: add_app_def map_sel_update_apps)

lemma calls_sel_inv: "sel_inv (st\<lparr>calls := c\<rparr>) = sel_inv st"
  by (simp add: sel_inv_def registry_ok_def at_most_one_selected_def)

lemma disk_sel_inv: "sel_inv (st\<lparr>disk := c\<rparr>) = sel_inv st"
  by (simp add: sel_inv_def registry_ok_def at_most_one_selected_def)

lemma add_option_sel_inv: "sel_inv st \<Longrightarrow> sel_inv (state_of (add_option st n a))"
  apply (simp add: add_option_def Let_def Option_init_def master_add_option_def mkdir_def
      write_file_def split: option.splits)
  apply (auto simp: sel_inv_iff nth_append)
  done

lemma del_selected_option_sel_inv:
  assumes inv: "sel_inv st"
  shows "sel_inv (state_of (del_selected_option st))"
proof (cases "get_selected st")
  case None
  then show ?thesis using inv by (simp add: del_selected_option_def get_selected_option_def)
next
  case (Some s)
  have s: "s \<in> set (all_options st)"
    using Some by (auto simp: get_selected_def dest: find_SomeD)
  have sub: "\<And>x. x \<in> set (remove1 s (all_options st)) \<Longrightarrow> x \<in> set (all_options st)"
    by (metis notin_set_remove1)
  show ?thesis
    using inv s
    by (auto simp: del_selected_option_def get_selected_option_def Some del_option_def
        Option_delete_def Let_def deselect_def sel_inv_iff nth_list_update
        dest: sub split: option.splits)
qed

lemma click_app_sel_inv: "sel_inv st \<Longrightarrow> sel_inv (click_app st option i)"
  by (auto intro!: sel_inv_cong[of _ st] simp: click_app_def map_sel_update_apps)

lemma add_exe_sel_inv: "sel_inv st \<Longrightarrow> sel_inv (state_of (add_exe st option file))"
  by (auto simp: add_exe_def disk_sel_inv intro!: add_app_sel_inv[of _ st]
      split: option.splits)

lemma add_web_sel_inv: "sel_inv st \<Longrightarrow> sel_inv (state_of (add_web st option entry))"
  by (auto simp: add_web_def Let_def disk_sel_inv intro!: add_app_sel_inv[of _ st]
      split: option.splits)

lemma remove_selected_sel_inv:
  "sel_inv st \<Longrightarrow> sel_inv (state_of (remove_selected st option))"
  by (auto simp: remove_selected_def Let_def map_sel_update_apps intro!: sel_inv_cong[of _ st]
      split: option.splits prod.splits)

lemma run_selected_option_sel_inv: "sel_inv st \<Longrightarrow> sel_inv (run_selected_option st)"
  by (simp add: run_selected_option_def run_option_def run_all_def run_all_loop_eq
      calls_sel_inv split: option.splits)

lemma page_run_selected_sel_inv: "sel_inv st \<Longrightarrow> sel_inv (page_run_selected st option)"
  by (simp add: page_run_selected_def run_selected_def run_selected_loop_eq calls_sel_inv)

lemma handle_sel_inv: "sel_inv st \<Longrightarrow> enabled st ev \<Longrightarrow> sel_inv (handle st ev)"
  by (cases ev)
     (simp_all add: add_new_option_def add_option_sel_inv on_click_sel_inv
        del_selected_option_sel_inv click_app_sel_inv add_exe_sel_inv add_web_sel_inv
        remove_selected_sel_inv run_selected_option_sel_inv page_run_selected_sel_inv)

lemma get_options_loop_sel_inv:
  "sel_inv st \<Longrightarrow> sel_inv (state_of (get_options_loop names st))"
proof (induction names arbitrary: st)
  case Nil
  then show ?case by simp
next
  case (Cons n names)
  show ?case
  proof (cases "map_of (disk st) n")
    case None
    then show ?thesis using Cons.prems by simp
  next
    case (Some dir)
    have inv': "sel_inv (state_of (add_option st n (Some (load_dir n dir []))))"
      using Cons.prems by (rule add_option_sel_inv)
    show ?thesis
    proof (cases "add_option st n (Some (load_dir n dir []))")
      case (Returned u st')
      then show ?thesis using Some inv' Cons.IH by simp
    next
      case (Raised e st')
      then show ?thesis using Some inv' by simp
    qed
  qed
qed

lemma startup_sel_inv:
  assumes "startup d pf = Returned opts st"
  shows "sel_inv st"
proof -
  have "sel_inv ((init_state d pf)\<lparr>options := []\<rparr>)"
    by (simp add: init_state_def sel_inv_def registry_ok_def at_most_one_selected_def)
  from get_options_loop_sel_inv[OF this, of "map fst d"] assms show ?thesis
    by (auto simp: startup_def get_options_def Let_def init_state_def split: result.splits)
qed

lemma reachable_sel_inv: "reachable st \<Longrightarrow> sel_inv st"
  by (induction rule: reachable.induct) (auto intro: startup_sel_inv handle_sel_inv)

text \<open>
  Claim C1. In every state the program can reach, at most one folder object has
  \<^verbatim>\<open>selected\<close> true. If folder \<open>a\<close> holds the selection and a different folder \<open>b\<close> is
  clicked, \<^verbatim>\<open>on_click\<close> first deselects \<open>a\<close> and then selects \<open>b\<close>: afterwards \<open>a\<close> is
  not selected, \<open>b\<close> is, and still at most one folder is.
\<close>

theorem exclusive_selection:
  assumes "reachable st"
  shows "at_most_one_selected st \<and>
    (\<forall>a b. a \<in> set (options st) \<longrightarrow> b \<in> set (options st) \<longrightarrow> a \<noteq> b \<longrightarrow>
        opt_selected (objs st ! a) \<longrightarrow>
        on_click st b = select (deselect st a) b \<and>
        \<not> opt_selected (objs (deselect st a) ! a) \<and>
        \<not> opt_selected (objs (on_click st b) ! a) \<and>
        opt_selected (objs (on_click st b) ! b) \<and>
        at_most_one_selected (on_click st b))"
proof -
  have inv: "sel_inv st" using assms by (rule reachable_sel_inv)
  have "on_click st b = select (deselect st a) b \<and>
        \<not> opt_selected (objs (deselect st a) ! a) \<and>
        \<not> opt_selected (objs (on_click st b) ! a) \<and>
        opt_selected (objs (on_click st b) ! b) \<and>
        at_most_one_selected (on_click st b)"
    if ab: "a \<in> set (options st)" "b \<in> set (options st)" "a \<noteq> b"
      "opt_selected (objs st ! a)" for a b
  proof -
    have lt: "a < length (objs st)" "b < length (objs st)"
      using inv ab by (auto simp: sel_inv_iff)
    have g: "get_selected st = Some a" using inv lt ab by (simp add: get_selected_Some)
    have oc: "on_click st b = select (deselect st a) b" by (simp add: on_click_def g)
    have "sel_inv (on_click st b)" using inv ab by (simp add: on_click_sel_inv)
    then have amo: "at_most_one_selected (on_click st b)" by (simp add: sel_inv_def)
    show ?thesis
      using oc amo lt ab by (simp add: select_def deselect_def)
  qed
  moreover have "at_most_one_selected st" using inv by (simp add: sel_inv_def)
  ultimately show ?thesis by blast
qed

lemma startup_two_dirs: "startup two_dirs Windows = Returned [0, 1] loaded"
  by (simp add: startup_def get_options_def init_state_def two_dirs_def loaded_def
      add_option_def strip_examples Option_init_def master_add_option_def isdir_def Let_def
      readlines_def)

lemma reachable_games_selected: "reachable (on_click loaded 0)"
proof -
  have "reachable loaded" using startup_two_dirs by (rule reachable.start)
  moreover have "enabled loaded (Click_folder 0)" by (simp add: loaded_def)
  ultimately have "reachable (handle loaded (Click_folder 0))" by (rule reachable.step)
  then show ?thesis by simp
qed

theorem exclusive_selection_witness:
  "reachable (on_click loaded 0) \<and>
   opt_selected (objs (on_click loaded 0) ! 0) \<and>
   at_most_one_selected (on_click loaded 0) \<and>
   on_click (on_click loaded 0) 1 = select (deselect (on_click loaded 0) 0) 1 \<and>
   \<not> opt_selected (objs (on_click (on_click loaded 0) 1) ! 0) \<and>
   opt_selected (objs (on_click (on_click loaded 0) 1) ! 1) \<and>
   at_most_one_selected (on_click (on_click loaded 0) 1)"
proof -
  have sel: "opt_selected (objs (on_click loaded 0) ! 0)"
    and opts: "options (on_click loaded 0) = [0, 1]"
    by (simp_all add: loaded_def on_click_def get_selected_def select_def)
  have one: "at_most_one_selected (on_click loaded 0)"
    by (rule exclusive_selection [OF reachable_games_selected, THEN conjunct1])
  have click: "on_click (on_click loaded 0) 1 = select (deselect (on_click loaded 0) 0) 1 \<and>
      \<not> opt_selected (objs (deselect (on_click loaded 0) 0) ! 0) \<and>
      \<not> opt_selected (objs (on_click (on_click loaded 0) 1) ! 0) \<and>
      opt_selected (objs (on_click (on_click loaded 0) 1) ! 1) \<and>
      at_most_one_selected (on_click (on_click loaded 0) 1)"
    by (rule exclusive_selection [OF reachable_games_selected, THEN conjunct2, rule_format,
          of 0 1]) (simp_all add: opts sel)
  show ?thesis using reachable_games_selected sel one click by blast
qed

section \<open>Creating a folder\<close>

lemma list_ex_name_iff:
  "list_ex (\<lambda>option. n = opt_name (objs st ! option)) (options st) =
     (n \<in> set (folder_names st))"
  by (auto simp: list_ex_iff folder_names_def)

lemma map_of_None_iff: "(map_of xs k = None) = (k \<notin> fst ` set xs)"
  by (simp add: map_of_eq_None_iff)

lemma map_of_append_notin: "k \<notin> fst ` set xs \<Longrightarrow> map_of (xs @ ys) k = map_of ys k"
  by (induction xs) auto

lemma update_append_notin:
  "k \<notin> fst ` set xs \<Longrightarrow> AList.update k v (xs @ ys) = xs @ AList.update k v ys"
  by (induction xs) auto

lemma strip_blank_examples:
  "strip ''  '' = []" "strip '' work '' = ''work''" "strip '' music '' = ''music''"
  by (simp_all add: strip_def isspace_def)

lemma folder_names_loaded_example: "folder_names loaded = [''games'', ''work'']"
  by (simp add: folder_names_def loaded_def)


text \<open>
  Claim C6. If the name is empty after trimming, or after trimming is the name of a
  folder on the overview, creating a folder returns without an exception and leaves
  the whole state, memory and data directory, as it was.
\<close>

theorem create_folder_invalid_noop:
  "strip name = [] \<or> strip name \<in> set (folder_names st) \<Longrightarrow>
     add_option st name apps = Returned () st"
  by (auto simp: add_option_def Let_def list_ex_name_iff)

theorem create_folder_invalid_noop_witness:
  "strip ''  '' = [] \<and> add_option loaded ''  '' None = Returned () loaded \<and>
   strip '' work '' \<in> set (folder_names loaded) \<and>
   add_option loaded '' work '' None = Returned () loaded"
  using create_folder_invalid_noop [of "''  ''" loaded None]
    create_folder_invalid_noop [of "'' work ''" loaded None]
  by (simp add: strip_blank_examples folder_names_loaded_example)



section \<open>Loading the data directory\<close>

lemma add_option_returns:
  "\<exists>st'. add_option st n a = Returned () st' \<and>
         fst ` set (disk st) \<subseteq> fst ` set (disk st')"
  by (auto simp: add_option_def Let_def Option_init_def master_add_option_def isdir_def
      mkdir_def write_file_def AList.dom_update split: option.splits)

lemma get_options_loop_returns:
  "set names \<subseteq> fst ` set (disk st) \<Longrightarrow> \<exists>st'. get_options_loop names st = Returned () st'"
proof (induction names arbitrary: st)
  case Nil
  then show ?case by simp
next
  case (Cons n names)
  then obtain dir where dir: "map_of (disk st) n = Some dir"
    by (cases "map_of (disk st) n") (auto simp: map_of_None_iff)
  obtain st1 where st1: "add_option st n (Some (load_dir n dir [])) = Returned () st1"
    "fst ` set (disk st) \<subseteq> fst ` set (disk st1)"
    using add_option_returns by blast
  have "set names \<subseteq> fst ` set (disk st1)" using Cons.prems st1(2) by auto
  from Cons.IH[OF this] show ?case using dir st1(1) by simp
qed

lemma get_options_returns: "\<exists>st'. get_options st = Returned (options st') st'"
proof -
  obtain st' where
    "get_options_loop (map fst (disk st)) (st\<lparr>options := []\<rparr>) = Returned () st'"
    using get_options_loop_returns[of "map fst (disk st)" "st\<lparr>options := []\<rparr>"] by auto
  then show ?thesis by (auto simp: get_options_def)
qed

lemma find_False: "find (\<lambda>x. False) xs = None"
  by (induction xs) simp_all

text \<open>
  Claim C10. Whatever the argument, \<^verbatim>\<open>get_option\<close> reloads the folders and returns
  \<^verbatim>\<open>None\<close>, because it compares each folder's name with the folder object; so
  \<^verbatim>\<open>add_site\<close> and \<^verbatim>\<open>get_apps\<close>, which use what it returns, raise
  \<^verbatim>\<open>AttributeError\<close> and never succeed.
\<close>

theorem get_option_returns_None:
  "\<exists>st'. get_options st = Returned (options st') st' \<and>
         get_option st option = Returned None st' \<and>
         add_site st option site_url = Raised AttributeError st' \<and>
         get_apps st option = Raised AttributeError st'"
proof -
  obtain st' where "get_options st = Returned (options st') st'"
    using get_options_returns by blast
  then show ?thesis
    by (simp add: get_option_def add_site_def get_apps_def find_False)
qed

text \<open>On a clean data directory the program starts in \<open>loaded_state\<close>.\<close>

lemma list_ex_loaded_names:
  "list_ex (\<lambda>option. n = opt_name (map loaded_object xs ! option)) [0..<length xs] =
     (n \<in> fst ` set xs)"
proof -
  have "(\<exists>i<length xs. n = fst (xs ! i)) = (n \<in> fst ` set xs)"
    by (metis (no_types, lifting) image_iff in_set_conv_nth)
  then show ?thesis by (simp add: list_ex_iff loaded_object_def Bex_def)
qed

lemma get_options_loop_clean:
  assumes "distinct (map fst (xs @ ys))"
    "list_all (\<lambda>entry. strip (fst entry) = fst entry \<and> fst entry \<noteq> []) ys"
  shows "get_options_loop (map fst ys) ((loaded_state xs pf)\<lparr>disk := xs @ ys\<rparr>) =
     Returned () (loaded_state (xs @ ys) pf)"
  using assms
proof (induction ys arbitrary: xs)
  case Nil
  then show ?case by (simp add: loaded_state_def)
next
  case (Cons y ys)
  obtain n dir where y: "y = (n, dir)" by (cases y)
  have nx: "n \<notin> fst ` set xs" using Cons.prems(1) y by auto
  have look: "map_of (xs @ y # ys) n = Some dir"
    using nx y by (simp add: map_of_append_notin del: map_of_append)
  have n: "strip n = n" "n \<noteq> []" using Cons.prems(2) y by auto
  have add: "add_option ((loaded_state xs pf)\<lparr>disk := xs @ y # ys\<rparr>) n
        (Some (load_dir n dir []))
      = Returned () ((loaded_state (xs @ [y]) pf)\<lparr>disk := (xs @ [y]) @ ys\<rparr>)"
    using n nx look
    by (simp add: add_option_def Let_def loaded_state_def list_ex_loaded_names Option_init_def
        master_add_option_def isdir_def y loaded_object_def del: map_of_append)
  have "get_options_loop (map fst ys)
        ((loaded_state (xs @ [y]) pf)\<lparr>disk := (xs @ [y]) @ ys\<rparr>)
      = Returned () (loaded_state ((xs @ [y]) @ ys) pf)"
    using Cons.prems by (intro Cons.IH) auto
  then show ?case using look add y by (simp del: map_of_append)
qed

lemma startup_clean:
  assumes "clean_disk d"
  shows "startup d pf = Returned [0..<length d] (loaded_state d pf)"
proof -
  have "get_options_loop (map fst d) ((loaded_state [] pf)\<lparr>disk := [] @ d\<rparr>) =
      Returned () (loaded_state ([] @ d) pf)"
    using assms by (intro get_options_loop_clean) (auto simp: clean_disk_def list_all_iff)
  then show ?thesis
    by (simp add: startup_def get_options_def init_state_def loaded_state_def)
qed

lemma folder_names_loaded: "folder_names (loaded_state d pf) = map fst d"
  by (rule nth_equalityI) (simp_all add: folder_names_def loaded_state_def loaded_object_def)

section \<open>Deleting the selected folder\<close>

lemma clean_disk_delete: "clean_disk d \<Longrightarrow> clean_disk (AList.delete k d)"
proof -
  have "set (AList.delete k d) \<subseteq> set d" by (auto simp: AList.delete_eq)
  then show "clean_disk d \<Longrightarrow> clean_disk (AList.delete k d)"
    by (auto simp: clean_disk_def AList.distinct_delete list_all_iff)
qed

lemma opt_name_update_selected:
  "opt_name (xs[i := (xs ! i)\<lparr>opt_selected := b\<rparr>] ! j) = opt_name (xs ! j)"
  by (cases "i < length xs") (auto simp: nth_list_update list_update_beyond)





section \<open>Reading and writing text files\<close>



lemma last_dropWhile: "dropWhile P xs \<noteq> [] \<Longrightarrow> last (dropWhile P xs) = last xs"
  by (metis last_appendR takeWhile_dropWhile_id)

lemma strip_stripped: "strip e \<noteq> [] \<Longrightarrow> stripped (strip e)"
proof -
  assume ne: "strip e \<noteq> []"
  define t where "t = dropWhile isspace e"
  define w where "w = dropWhile isspace (rev t)"
  have se: "strip e = rev w" by (simp add: strip_def t_def w_def)
  have w: "w \<noteq> []" using ne se by simp
  then have t: "t \<noteq> []" by (auto simp: w_def)
  have "\<not> isspace (hd w)" using w unfolding w_def by (rule hd_dropWhile)
  then have l: "\<not> isspace (last (rev w))" using w by (simp add: last_rev)
  have "last w = last (rev t)" using w unfolding w_def by (rule last_dropWhile)
  then have "hd (rev w) = hd t" using w t by (simp add: hd_rev last_rev)
  moreover have "\<not> isspace (hd t)" using t unfolding t_def by (rule hd_dropWhile)
  ultimately show ?thesis using se w l by (simp add: stripped_def)
qed

lemma dropWhile_hd: "xs \<noteq> [] \<Longrightarrow> \<not> P (hd xs) \<Longrightarrow> dropWhile P xs = xs"
  by (cases xs) auto

lemma stripped_strip: "stripped s \<Longrightarrow> strip s = s"
  by (simp add: stripped_def strip_def dropWhile_hd hd_rev)















section \<open>Adding web items\<close>

lemma set_update_subset: "set (AList.update k v al) \<subseteq> insert (k, v) (set al)"
  by (induction al) auto

lemma clean_disk_update:
  assumes "clean_disk d" "map_of d k = Some dir"
  shows "clean_disk (AList.update k (AList.update f c dir) d)"
proof -
  have kd: "(k, dir) \<in> set d" using assms(2) by (rule map_of_SomeD)
  then have k: "strip k = k" "k \<noteq> []" "distinct (map fst dir)"
    using assms(1) by (auto simp: clean_disk_def list_all_iff)
  have "distinct (map fst (AList.update f c dir))"
    using k(3) by (rule AList.distinct_update)
  then show ?thesis
    using assms(1) k set_update_subset[of k "AList.update f c dir" d]
    by (auto simp: clean_disk_def list_all_iff AList.distinct_update)
qed

lemma read_file_update:
  "map_of d k = Some dir \<Longrightarrow>
     read_file (AList.update k (AList.update f c dir) d) k f = Some c"
  by (simp add: read_file_def AList.update_conv')



lemma add_web_blank: "strip e = [] \<Longrightarrow> add_web st option e = Returned () st"
  by (simp add: add_web_def)

lemma add_web_step:
  assumes "map_of (disk st) (opt_name (objs st ! option)) = Some dir" "strip e \<noteq> []"
  shows "add_web st option e =
     Returned ()
       (st\<lparr>disk := AList.update (opt_name (objs st ! option))
               (AList.update ''weburls.txt''
                  ((case map_of dir ''weburls.txt'' of None \<Rightarrow> [] | Some old \<Rightarrow> old) @
                   text_write (os_platform st)
                     (stored_url (strip e) @ os_linesep (os_platform st))) dir) (disk st),
           objs := (objs st)[option := (objs st ! option)
               \<lparr>opt_apps := opt_apps (objs st ! option) @ [web_item (stored_url (strip e))]\<rparr>]\<rparr>)"
  using assms
  by (simp add: add_web_def Let_def append_file_def add_app_def stored_url_def web_item_def)






text \<open>
  Claim C8 says that an input which already carries a scheme prefix is stored
  unchanged. \<^verbatim>\<open>add_web\<close> only looks for \<^verbatim>\<open>http://\<close> and \<^verbatim>\<open>https://\<close>: the input
  \<^verbatim>\<open>ftp://example.org\<close> is stored with \<^verbatim>\<open>https://\<close> in front, in the item and
  in the file.
\<close>

theorem add_web_prefixes_other_scheme:
  "strip ''ftp://example.org'' = ''ftp://example.org'' \<and>
   opt_apps (objs (state_of (add_web loaded 1 ''ftp://example.org'')) ! 1) =
     [\<lparr>app_path = StrObj ''https://ftp://example.org'', app_type = web,
       app_selected = False\<rparr>] \<and>
   read_file (disk (state_of (add_web loaded 1 ''ftp://example.org''))) ''work''
     ''weburls.txt'' = Some (''https://ftp://example.org'' @ [CR, CR, LF])"
  by (simp add: strip_def isspace_def add_web_def loaded_def two_dirs_def startswith_def
      append_file_def add_app_def OptionApp_init_def read_file_def text_write_def
      os_linesep_def LF_def CR_def)

text \<open>
  Claim C8 as amended. If the text is not blank after trimming and the folder's
  directory exists, \<^verbatim>\<open>add_web\<close> returns, appends to the folder one unticked web item
  and appends to \<^verbatim>\<open>weburls.txt\<close> one line, both holding the same URL: the trimmed text
  itself if it starts with \<^verbatim>\<open>http://\<close> or \<^verbatim>\<open>https://\<close>, and otherwise the trimmed text
  with \<^verbatim>\<open>https://\<close> in front.
\<close>

theorem add_web_stores_url:
  assumes "strip entry \<noteq> []" "option < length (objs st)"
    "map_of (disk st) (opt_name (objs st ! option)) = Some dir"
  shows "\<exists>st'. add_web st option entry = Returned () st' \<and>
     opt_apps (objs st' ! option) =
       opt_apps (objs st ! option) @
         [\<lparr>app_path = StrObj (stored_url (strip entry)), app_type = web,
           app_selected = False\<rparr>] \<and>
     read_file (disk st') (opt_name (objs st ! option)) ''weburls.txt'' =
       Some ((case map_of dir ''weburls.txt'' of None \<Rightarrow> [] | Some old \<Rightarrow> old) @
             text_write (os_platform st)
               (stored_url (strip entry) @ os_linesep (os_platform st))) \<and>
     stored_url (strip entry) =
       (if startswith (strip entry) [''http://'', ''https://''] then strip entry
        else ''https://'' @ strip entry)"
  using assms add_web_step[OF assms(3,1)]
  by (simp add: read_file_update web_item_def OptionApp_init_def stored_url_def)

lemma loaded_work:
  "Suc 0 < length (objs loaded)" "opt_name (objs loaded ! Suc 0) = ''work''"
  "map_of (disk loaded) ''work'' = Some [(''weburls.txt'', [])]"
  "read_file (disk loaded) ''work'' ''weburls.txt'' = Some []"
  "os_platform loaded = Windows" "opt_apps (objs loaded ! Suc 0) = []"
  by (simp_all add: loaded_def two_dirs_def read_file_def)

theorem add_web_stores_url_witness:
  "strip ''example.com'' = ''example.com'' \<and>
   \<not> startswith ''example.com'' [''http://'', ''https://''] \<and>
   (\<exists>st'. add_web loaded 1 ''example.com'' = Returned () st' \<and>
      opt_apps (objs st' ! 1) =
        [\<lparr>app_path = StrObj ''https://example.com'', app_type = web, app_selected = False\<rparr>] \<and>
      read_file (disk st') ''work'' ''weburls.txt'' = Some (''https://example.com'' @ [CR, CR, LF])) \<and>
   strip ''http://b.org'' = ''http://b.org'' \<and>
   startswith ''http://b.org'' [''http://'', ''https://''] \<and>
   (\<exists>st'. add_web loaded 1 ''http://b.org'' = Returned () st' \<and>
      opt_apps (objs st' ! 1) =
        [\<lparr>app_path = StrObj ''http://b.org'', app_type = web, app_selected = False\<rparr>] \<and>
      read_file (disk st') ''work'' ''weburls.txt'' = Some (''http://b.org'' @ [CR, CR, LF]))"
proof -
  have s: "strip ''example.com'' = ''example.com''" "strip ''http://b.org'' = ''http://b.org''"
    by (simp_all add: strip_def isspace_def)
  have p: "\<not> startswith ''example.com'' [''http://'', ''https://'']"
    "startswith ''http://b.org'' [''http://'', ''https://'']"
    by (simp_all add: startswith_def)
  have w: "text_write Windows (''https://example.com'' @ os_linesep Windows) = ''https://example.com'' @ [CR, CR, LF]"
    "text_write Windows (''http://b.org'' @ os_linesep Windows) = ''http://b.org'' @ [CR, CR, LF]"
    by (simp_all add: text_write_def os_linesep_def LF_def CR_def)
  have a: "\<exists>st'. add_web loaded 1 ''example.com'' = Returned () st' \<and>
      opt_apps (objs st' ! 1) =
        [\<lparr>app_path = StrObj ''https://example.com'', app_type = web, app_selected = False\<rparr>] \<and>
      read_file (disk st') ''work'' ''weburls.txt'' = Some (''https://example.com'' @ [CR, CR, LF])"
    using add_web_stores_url [of "''example.com''" 1 loaded "[(''weburls.txt'', [])]"] s p w
    by (simp add: loaded_work stored_url_def)
  have b: "\<exists>st'. add_web loaded 1 ''http://b.org'' = Returned () st' \<and>
      opt_apps (objs st' ! 1) =
        [\<lparr>app_path = StrObj ''http://b.org'', app_type = web, app_selected = False\<rparr>] \<and>
      read_file (disk st') ''work'' ''weburls.txt'' = Some (''http://b.org'' @ [CR, CR, LF])"
    using add_web_stores_url [of "''http://b.org''" 1 loaded "[(''weburls.txt'', [])]"] s p w
    by (simp add: loaded_work stored_url_def)
  show ?thesis using s p a b by blast
qed




section \<open>Removing the ticked items\<close>

lemma reachable_ticked_pair: "reachable ticked_pair"
proof -
  define st0 where "st0 = ticked_pair\<lparr>objs := [\<lparr>opt_name = ''work'',
      opt_apps = [web_item ''https://a.org'', web_item ''https://b.org'',
                  web_item ''https://c.org''], opt_selected = False\<rparr>]\<rparr>"
  have "startup (disk ticked_pair) Windows = Returned [0] st0"
    by (simp add: startup_def get_options_def init_state_def ticked_pair_def st0_def
        add_option_def strip_examples Option_init_def master_add_option_def isdir_def Let_def
        readlines_def web_item_def OptionApp_init_def CR_def LF_def strip_def isspace_def)
  then have r0: "reachable st0" by (rule reachable.start)
  have "enabled st0 (Click_app 0 0)" by (simp add: st0_def ticked_pair_def)
  with r0 have r1: "reachable (handle st0 (Click_app 0 0))" by (rule reachable.step)
  have "enabled (handle st0 (Click_app 0 0)) (Click_app 0 1)"
    by (simp add: st0_def ticked_pair_def click_app_def)
  with r1 have "reachable (handle (handle st0 (Click_app 0 0)) (Click_app 0 1))"
    by (rule reachable.step)
  moreover have "handle (handle st0 (Click_app 0 0)) (Click_app 0 1) = ticked_pair"
    by (simp add: st0_def ticked_pair_def click_app_def select_app_def web_item_def
        OptionApp_init_def)
  ultimately show ?thesis by simp
qed

text \<open>
  Claim C4 says that \<^verbatim>\<open>remove_selected\<close> removes every ticked web item from the
  folder and from \<^verbatim>\<open>weburls.txt\<close>. The loop removes from the list it iterates over,
  so the item after a removed one is skipped: in a state the program reaches, with
  the first two of three items ticked, the second stays in the folder, still ticked,
  and stays in the file.
\<close>

theorem remove_selected_skips_neighbour:
  "reachable ticked_pair \<and>
   remove_selected ticked_pair 0 =
     Returned ()
       (ticked_pair
          \<lparr>objs := [\<lparr>opt_name = ''work'',
               opt_apps = [\<lparr>app_path = StrObj ''https://b.org'', app_type = web,
                            app_selected = True\<rparr>,
                           \<lparr>app_path = StrObj ''https://c.org'', app_type = web,
                            app_selected = False\<rparr>],
               opt_selected = False\<rparr>],
            disk := [(''work'', [(''weburls.txt'',
                 ''https://b.org'' @ [CR, CR, LF] @ ''https://c.org'' @ [CR, CR, LF])])]\<rparr>)"
  using reachable_ticked_pair
  by (simp add: remove_selected_def ticked_pair_def remove_loop.simps remove_at_def Let_def
      read_file_def write_file_def readlines_def CR_def LF_def strip_def isspace_def
      text_write_def os_linesep_def)

section \<open>The invariants after a clean start\<close>

text \<open>
  The state predicates \<open>sel_inv\<close> and \<open>in_sync\<close>, which the statements above assume,
  hold when the program has started on a clean data directory and are kept by every
  event, also by one whose callback raises.
\<close>

lemma in_sync_cong:
  assumes "in_sync st" "map opt_name (objs st') = map opt_name (objs st)"
    "options st' = options st" "clean_disk (disk st')"
    "map fst (disk st') = map fst (disk st)" "list_all (\<lambda>option. option < length (objs st)) (options st)"
  shows "in_sync st'"
proof -
  have len: "length (objs st') = length (objs st)" using assms(2) by (metis length_map)
  have "\<And>i. i < length (objs st) \<Longrightarrow> opt_name (objs st' ! i) = opt_name (objs st ! i)"
    using assms(2) len by (metis nth_map)
  then have "folder_names st' = folder_names st"
    using assms(3,6) by (auto simp: folder_names_def list_all_iff)
  then show ?thesis using assms(1,4,5) by (simp add: in_sync_def)
qed

lemma map_name_update_apps:
  "map opt_name (xs[i := (xs ! i)\<lparr>opt_apps := a\<rparr>]) = map opt_name xs"
  by (cases "i < length xs") (auto simp: list_eq_iff_nth_eq nth_list_update)

lemma map_name_update_selected:
  "map opt_name (xs[i := (xs ! i)\<lparr>opt_selected := a\<rparr>]) = map opt_name xs"
  by (cases "i < length xs") (auto simp: list_eq_iff_nth_eq nth_list_update)

lemma update_keys_same:
  "map_of d k = Some v \<Longrightarrow> map fst (AList.update k v' d) = map fst d"
  by (auto simp: AList.update_keys dest: map_of_SomeD intro: rev_image_eqI)

lemma clean_disk_update_dir:
  assumes "clean_disk d" "map_of d k = Some dir" "distinct (map fst dir')"
  shows "clean_disk (AList.update k dir' d)"
proof -
  have kd: "(k, dir) \<in> set d" using assms(2) by (rule map_of_SomeD)
  then have k: "strip k = k" "k \<noteq> []"
    using assms(1) by (auto simp: clean_disk_def list_all_iff)
  show ?thesis
    using assms(1,3) k set_update_subset[of k dir' d]
    by (auto simp: clean_disk_def list_all_iff AList.distinct_update)
qed

lemma clean_dir: "clean_disk d \<Longrightarrow> map_of d k = Some dir \<Longrightarrow> distinct (map fst dir)"
  by (auto simp: clean_disk_def list_all_iff dest: map_of_SomeD)

lemma os_remove_clean:
  assumes "clean_disk d" "os_remove d p = Some d'"
  shows "clean_disk d' \<and> map fst d' = map fst d"
proof (cases p)
  case (PathObj k f)
  then obtain dir where dir: "map_of d k = Some dir" "d' = AList.update k (AList.delete f dir) d"
    using assms(2) by (auto split: option.splits if_splits)
  have "distinct (map fst (AList.delete f dir))"
    using clean_dir[OF assms(1) dir(1)] by (rule AList.distinct_delete)
  then show ?thesis using assms(1) dir by (simp add: clean_disk_update_dir update_keys_same)
next
  case (StrObj s)
  then show ?thesis using assms(2) by simp
qed

lemma remove_loop_clean:
  "clean_disk d \<Longrightarrow> remove_loop i apps urls d = (err, apps', urls', d') \<Longrightarrow>
     clean_disk d' \<and> map fst d' = map fst d"
proof (induction i apps urls d rule: remove_loop.induct)
  case (1 i apps urls d)
  show ?case
  proof (cases "length apps \<le> i")
    case True
    then show ?thesis using "1.prems" by (simp add: remove_loop.simps)
  next
    case False
    note nle = False
    show ?thesis
    proof (cases "app_selected (apps ! i)")
      case False
      then show ?thesis using "1.IH"(1)[OF nle refl] "1.prems" nle
        by (simp add: remove_loop.simps[of i apps])
    next
      case True
      note sel = True
      show ?thesis
      proof (cases "app_type (apps ! i) = lnk")
        case True
        show ?thesis
        proof (cases "os_remove d (app_path (apps ! i))")
          case None
          then show ?thesis using "1.prems" nle sel True
            by (simp add: remove_loop.simps[of i apps])
        next
          case (Some d1)
          have c1: "clean_disk d1 \<and> map fst d1 = map fst d"
            using os_remove_clean[OF "1.prems"(1) Some] .
          have "remove_loop (Suc i) (remove_at i apps) urls d1 = (err, apps', urls', d')"
            using "1.prems"(2) nle sel True Some by (simp add: remove_loop.simps[of i apps])
          from "1.IH"(2)[OF nle refl _ True Some _ this] sel c1 show ?thesis by simp
        qed
      next
        case False
        have "remove_loop (Suc i) (remove_at i apps) (urls @ [app_path (apps ! i)]) d =
            (err, apps', urls', d')"
          using "1.prems"(2) nle sel False by (simp add: remove_loop.simps[of i apps])
        from "1.IH"(3)[OF nle refl _ False "1.prems"(1) this] sel show ?thesis by simp
      qed
    qed
  qed
qed

lemma options_lt: "sel_inv st \<Longrightarrow> list_all (\<lambda>option. option < length (objs st)) (options st)"
  by (simp add: sel_inv_def registry_ok_def)

lemma add_option_new:
  assumes "strip name \<noteq> []" "strip name \<notin> set (folder_names st)"
    "strip name \<notin> fst ` set (disk st)"
  shows "add_option st name apps =
     Returned ()
       (st\<lparr>objs := objs st @
               [\<lparr>opt_name = strip name,
                 opt_apps = (case apps of None \<Rightarrow> [] | Some a \<Rightarrow> a), opt_selected = False\<rparr>],
           all_options := all_options st @ [length (objs st)],
           options := options st @ [length (objs st)],
           option_pages := option_pages st @ [length (objs st)],
           disk := disk st @ [(strip name, [(''weburls.txt'', [])])]\<rparr>)"
  using assms
  by (simp add: add_option_def Let_def list_ex_name_iff Option_init_def
      master_add_option_def isdir_def map_of_None_iff mkdir_def write_file_def
      map_of_append_notin update_append_notin del: map_of_append)

lemma strip_idem: "strip (strip s) = strip s"
proof (cases "strip s = []")
  case True
  have "strip [] = []" by (simp add: strip_def)
  with True show ?thesis by simp
next
  case False
  then show ?thesis by (intro stripped_strip strip_stripped)
qed

lemma add_option_in_sync:
  assumes "sel_inv st" "in_sync st"
  shows "in_sync (state_of (add_option st name None))"
proof (cases "strip name = [] \<or> strip name \<in> set (folder_names st)")
  case True
  then have "add_option st name None = Returned () st"
    by (auto simp: add_option_def Let_def list_ex_name_iff)
  then show ?thesis using assms(2) by simp
next
  case False
  then have n: "strip name \<noteq> []" "strip name \<notin> set (folder_names st)"
    "strip name \<notin> fst ` set (disk st)"
    using assms(2) by (auto simp: in_sync_def)
  have lt: "\<forall>option\<in>set (options st). option < length (objs st)"
    using options_lt[OF assms(1)] by (simp add: list_all_iff)
  have names: "map (\<lambda>option. opt_name ((objs st @ [x]) ! option)) (options st) = folder_names st" for x
    using lt by (simp add: folder_names_def nth_append)
  show ?thesis
    using assms(2) n
    by (simp add: add_option_new in_sync_def folder_names_def names[unfolded folder_names_def]
        clean_disk_def strip_idem)
qed

lemma distinct_map_remove1:
  assumes "distinct (map f xs)"
  shows "distinct (map f (remove1 s xs))"
proof -
  from assms have "distinct xs" "inj_on f (set xs)" by (simp_all add: distinct_map)
  then show ?thesis
    by (auto simp: distinct_map intro: inj_on_subset)
qed

lemma set_map_remove1:
  assumes "distinct (map f xs)" "s \<in> set xs"
  shows "set (map f (remove1 s xs)) = set (map f xs) - {f s}"
proof -
  from assms(1) have d: "distinct xs" and inj: "inj_on f (set xs)"
    by (simp_all add: distinct_map)
  show ?thesis using d inj assms(2) by (auto dest: inj_onD)
qed

lemma del_selected_option_in_sync:
  assumes "sel_inv st" "in_sync st"
  shows "in_sync (state_of (del_selected_option st))"
proof (cases "get_selected st")
  case None
  then show ?thesis using assms(2)
    by (simp add: del_selected_option_def get_selected_option_def)
next
  case (Some s)
  define name where "name = opt_name (objs st ! s)"
  have s: "s \<in> set (all_options st)" "s \<in> set (options st)"
    using Some assms(1) by (auto simp: get_selected_def sel_inv_iff dest: find_SomeD)
  have dir: "isdir (disk st) name"
    using s(2) assms(2)
    by (auto simp: in_sync_def folder_names_def isdir_def name_def map_of_None_iff)
  define st' where "st' = (deselect (st\<lparr>disk := AList.delete name (disk st),
      options := remove1 s (options st)\<rparr>) s)\<lparr>all_options := remove1 s (all_options st)\<rparr>"
  have del: "del_selected_option st = Returned () st'"
    using Some s dir
    by (simp add: del_selected_option_def get_selected_option_def delete_directory_def
        del_option_def Option_delete_def Let_def deselect_def st'_def name_def)
  have names: "folder_names st' =
      map (\<lambda>option. opt_name (objs st ! option)) (remove1 s (options st))"
    by (simp add: folder_names_def st'_def deselect_def opt_name_update_selected)
  have dn: "distinct (map (\<lambda>option. opt_name (objs st ! option)) (options st))"
    using assms(2) by (simp add: in_sync_def folder_names_def)
  have "set (map fst (AList.delete name (disk st))) = set (map fst (disk st)) - {name}"
    by (simp add: AList.delete_keys)
  then have "in_sync st'"
    using assms(2) distinct_map_remove1[OF dn, of s] set_map_remove1[OF dn s(2)]
    by (simp add: in_sync_def names)
       (simp add: st'_def deselect_def clean_disk_delete folder_names_def name_def)
  then show ?thesis by (simp add: del)
qed

lemma add_app_in_sync:
  assumes "sel_inv st" "in_sync st" "clean_disk d" "map fst d = map fst (disk st)"
  shows "in_sync (add_app (st\<lparr>disk := d\<rparr>) option app)"
  using assms(2)
  by (rule in_sync_cong)
     (simp_all add: add_app_def map_name_update_apps assms(3,4) options_lt[OF assms(1)])

lemma add_exe_in_sync:
  assumes "sel_inv st" "in_sync st"
  shows "in_sync (state_of (add_exe st option file))"
proof (cases "file")
  case None
  then show ?thesis using assms(2) by (simp add: add_exe_def)
next
  case (Some p)
  show ?thesis
  proof (cases "map_of (disk st) (opt_name (objs st ! option))")
    case None
    then show ?thesis using assms(2) Some by (simp add: add_exe_def create_lnk_def write_file_def)
  next
    case (Some dir)
    have c: "clean_disk (disk st)" using assms(2) by (simp add: in_sync_def)
    show ?thesis
      using \<open>file = Some p\<close> Some
      by (simp add: add_exe_def create_lnk_def write_file_def)
         (intro add_app_in_sync assms clean_disk_update[OF c Some] update_keys_same[OF Some])
  qed
qed

lemma add_web_in_sync:
  assumes "sel_inv st" "in_sync st"
  shows "in_sync (state_of (add_web st option e))"
proof (cases "strip e = []")
  case True
  then show ?thesis using assms(2) by (simp add: add_web_blank)
next
  case False
  show ?thesis
  proof (cases "map_of (disk st) (opt_name (objs st ! option))")
    case None
    then show ?thesis using assms(2) False by (simp add: add_web_def append_file_def Let_def)
  next
    case (Some dir)
    have c: "clean_disk (disk st)" using assms(2) by (simp add: in_sync_def)
    obtain content url where
      "state_of (add_web st option e) =
         add_app (st\<lparr>disk := AList.update (opt_name (objs st ! option))
            (AList.update ''weburls.txt'' content dir) (disk st)\<rparr>) option (web_item url)"
      using False Some by (simp add: add_web_def append_file_def Let_def web_item_def)
    then show ?thesis
      by (simp add: add_app_in_sync assms clean_disk_update[OF c Some]
          update_keys_same[OF Some])
  qed
qed

lemma remove_selected_in_sync:
  assumes "sel_inv st" "in_sync st"
  shows "in_sync (state_of (remove_selected st option))"
proof -
  obtain err apps urls d where l:
    "remove_loop 0 (opt_apps (objs st ! option)) [] (disk st) = (err, apps, urls, d)"
    by (metis prod_cases4)
  have c: "clean_disk (disk st)" using assms(2) by (simp add: in_sync_def)
  have d: "clean_disk d" "map fst d = map fst (disk st)"
    using remove_loop_clean[OF c l] by simp_all
  define st1 where "st1 = st\<lparr>objs := (objs st)[option := (objs st ! option)\<lparr>opt_apps := apps\<rparr>],
      disk := d\<rparr>"
  have s1: "in_sync st1"
    using assms(2)
    by (rule in_sync_cong) (simp_all add: st1_def map_name_update_apps d options_lt[OF assms(1)])
  have s2: "in_sync (st1\<lparr>disk := d'\<rparr>)"
    if w: "write_file d (opt_name (objs st ! option)) ''weburls.txt'' c' = Some d'" for c' d'
  proof -
    obtain dir where dir: "map_of d (opt_name (objs st ! option)) = Some dir"
      "d' = AList.update (opt_name (objs st ! option)) (AList.update ''weburls.txt'' c' dir) d"
      using w by (auto simp: write_file_def split: option.splits)
    show ?thesis
      using s1
      by (rule in_sync_cong)
         (simp_all add: st1_def dir(2) clean_disk_update[OF d(1) dir(1)]
            update_keys_same[OF dir(1)] d(2) map_name_update_apps options_lt[OF assms(1)])
  qed
  show ?thesis
    using s1 s2
    by (auto simp: remove_selected_def l Let_def st1_def[symmetric] split: option.splits)
       (simp_all add: st1_def)
qed

lemma calls_in_sync: "in_sync (st\<lparr>calls := c\<rparr>) = in_sync st"
  by (simp add: in_sync_def folder_names_def)

lemma on_click_in_sync:
  assumes "sel_inv st" "in_sync st"
  shows "in_sync (on_click st b)"
proof -
  have c: "clean_disk (disk st)" using assms(2) by (simp add: in_sync_def)
  show ?thesis
    using assms(2)
    by (rule in_sync_cong)
       (auto simp: on_click_def select_def deselect_def map_name_update_selected c
          options_lt[OF assms(1)] split: option.splits)
qed

lemma click_app_in_sync:
  assumes "sel_inv st" "in_sync st"
  shows "in_sync (click_app st option i)"
proof -
  have c: "clean_disk (disk st)" using assms(2) by (simp add: in_sync_def)
  show ?thesis
    using assms(2)
    by (rule in_sync_cong)
       (auto simp: click_app_def map_name_update_apps c options_lt[OF assms(1)])
qed

lemma handle_in_sync:
  assumes "sel_inv st" "in_sync st"
  shows "in_sync (handle st ev)"
  using assms
  by (cases ev)
     (simp_all add: add_new_option_def add_option_in_sync on_click_in_sync
        del_selected_option_in_sync click_app_in_sync add_exe_in_sync add_web_in_sync
        remove_selected_in_sync run_selected_option_def run_option_def run_all_def
        run_all_loop_eq calls_in_sync page_run_selected_def run_selected_def
        run_selected_loop_eq get_selected_option_def split: option.splits)

lemma loaded_state_reachable: "clean_disk d \<Longrightarrow> reachable (loaded_state d pf)"
  using startup_clean[of d pf] by (rule reachable.start)

lemma loaded_state_in_sync: "clean_disk d \<Longrightarrow> in_sync (loaded_state d pf)"
  by (simp add: in_sync_def folder_names_loaded clean_disk_def) (simp add: loaded_state_def)

lemma clean_reachable_inv: "clean_reachable st \<Longrightarrow> reachable st \<and> sel_inv st \<and> in_sync st"
proof (induction rule: clean_reachable.induct)
  case (clean_start d pf)
  then show ?case
    by (simp add: loaded_state_reachable loaded_state_in_sync reachable_sel_inv)
next
  case (clean_step st ev)
  then show ?case
    by (simp add: reachable.step handle_sel_inv handle_in_sync)
qed

end
